theory Spec2Isabelle
  imports Complex_Main
begin

section \<open>Numbers\<close>

text \<open>
  The component computes with JavaScript numbers. They are modelled by \<^typ>\<open>real\<close>: every
  finite number is its exact value and arithmetic is exact (no rounding, no overflow).
  The values that are not finite numbers (\<open>NaN\<close>, \<open>Infinity\<close>, \<open>undefined\<close> read from an
  array) have no counterpart in \<^typ>\<open>real\<close>; each place of the source where one of them can
  arise from finite operands is written out as a \<open>None\<close> result:
  \<^item> \<open>parseFloat\<close> of a string that does not start with a decimal literal,
  \<^item> an index beyond the end of the matrix array,
  \<^item> the division \<open>1000 / (1000 + z)\<close> when the denominator is zero.
\<close>

definition js_trunc :: "real \<Rightarrow> int" where
  \<comment> \<open>rounding towards zero\<close>
  "js_trunc r = (if 0 \<le> r then \<lfloor>r\<rfloor> else \<lceil>r\<rceil>)"

definition js_rem :: "real \<Rightarrow> real \<Rightarrow> real" where
  \<comment> \<open>the operator \<open>a % b\<close> for a divisor \<open>b \<noteq> 0\<close>: the remainder of the division truncated
      towards zero, which has the sign of the dividend. The source only divides by \<open>360\<close>.\<close>
  "js_rem a b = a - b * of_int (js_trunc (a / b))"

section \<open>Strings\<close>

text \<open>
  Strings are lists of \<^typ>\<open>char\<close>, one \<^typ>\<open>char\<close> per ASCII character. The names and the
  numeric fields of the generated satellites are ASCII text. On ASCII text
  \<open>toLowerCase\<close> replaces the capital letters A to Z by the small letters and changes
  nothing else, which is what \<open>lower_char\<close> does. The built-in also folds letters beyond
  ASCII; they have no counterpart in \<^typ>\<open>char\<close>, and the properties of the search are
  stated for ASCII text.
\<close>

definition ascii :: "string \<Rightarrow> bool" where
  "ascii s = list_all (\<lambda>c. (of_char c :: nat) < 128) s"





subsection \<open>Decimal literals\<close>

definition digit_of :: "char \<Rightarrow> nat option" where
  "digit_of c =
     map_of [(CHR ''0'', 0), (CHR ''1'', 1), (CHR ''2'', 2), (CHR ''3'', 3), (CHR ''4'', 4),
             (CHR ''5'', 5), (CHR ''6'', 6), (CHR ''7'', 7), (CHR ''8'', 8), (CHR ''9'', 9)] c"

fun span_digits :: "string \<Rightarrow> nat list \<times> string" where
  \<comment> \<open>the longest prefix of digits, and what follows it\<close>
  "span_digits [] = ([], [])"
| "span_digits (c # cs) =
     (case digit_of c of
        None \<Rightarrow> ([], c # cs)
      | Some d \<Rightarrow> (let (ds, rest) = span_digits cs in (d # ds, rest)))"

definition digits_val :: "nat list \<Rightarrow> nat" where
  "digits_val ds = foldl (\<lambda>a d. 10 * a + d) 0 ds"

definition is_space :: "char \<Rightarrow> bool" where
  "is_space c = (c \<in> set [CHR '' '', CHR 0x09, CHR 0x0A, CHR 0x0B, CHR 0x0C, CHR 0x0D])"

definition parse_sign :: "string \<Rightarrow> real \<times> string" where
  "parse_sign s =
     (case s of
        [] \<Rightarrow> (1, s)
      | c # cs \<Rightarrow>
          if c = CHR ''-'' then (- 1, cs) else if c = CHR ''+'' then (1, cs) else (1, s))"

definition parse_exponent :: "string \<Rightarrow> int" where
  \<comment> \<open>an exponent part \<open>e\<close>, sign, digits; \<open>0\<close> when there is none\<close>
  "parse_exponent s =
     (case s of
        [] \<Rightarrow> 0
      | c # cs \<Rightarrow>
          if c = CHR ''e'' \<or> c = CHR ''E'' then
            (let (sg, r) = parse_sign cs; (ds, _) = span_digits r
             in if ds = [] then 0
                else if sg < 0 then - int (digits_val ds) else int (digits_val ds))
          else 0)"

definition parseFloat :: "string \<Rightarrow> real option" where
  \<comment> \<open>The built-in \<open>parseFloat\<close>: leading white space is skipped and the longest prefix
      that is a decimal literal (sign, digits, fraction, exponent) is read; \<open>None\<close> is the
      result \<open>NaN\<close> for a string with no such prefix. The literal \<open>Infinity\<close> and literals
      beyond the range of finite numbers are outside the model.\<close>
  "parseFloat s =
     (let (sg, s2) = parse_sign (dropWhile is_space s);
          (ip, s3) = span_digits s2;
          (fp, s4) = (case s3 of
                        [] \<Rightarrow> ([], s3)
                      | c # cs \<Rightarrow> if c = CHR ''.'' then span_digits cs else ([], s3))
      in if ip = [] \<and> fp = [] then None
         else Some (sg * (real (digits_val ip) + real (digits_val fp) / 10 ^ length fp)
                       * 10 powi parse_exponent s4))"

definition digit_char :: "nat \<Rightarrow> char" where
  "digit_char d = ''0123456789'' ! (d mod 10)"

fun show_nat :: "nat \<Rightarrow> string" where
  \<comment> \<open>the decimal digits of a natural number, as a template literal prints it\<close>
  "show_nat n = (if n < 10 then [digit_char n] else show_nat (n div 10) @ [digit_char n])"

declare show_nat.simps [simp del]

definition toFixed2 :: "real \<Rightarrow> string" where
  \<comment> \<open>\<open>v.toFixed(2)\<close> for \<open>\<bar>v\<bar> < 10^21\<close>: the sign, then the integer \<open>n\<close> nearest to
      \<open>\<bar>v\<bar> * 100\<close> (the larger one at a tie) with a point before its last two digits\<close>
  "toFixed2 v =
     (let n = nat \<lfloor>\<bar>v\<bar> * 100 + 1 / 2\<rfloor>
      in (if v < 0 then ''-'' else '''') @ show_nat (n div 100) @ ''.''
           @ [digit_char (n mod 100 div 10), digit_char n])"

section \<open>Data model\<close>

datatype category = Communication | Navigation | Weather | Telescope | Debris


record Satellite =
  name :: string
  norad_id :: nat
  lon :: string
  lat :: string
  alt :: string
  category :: category

text \<open>The object shapes \<open>{x, y}\<close> (rotation, drag anchor) and \<open>{x, y, z}\<close> (points).\<close>

record xy =
  xy_x :: real
  xy_y :: real

record xyz =
  p_x :: real
  p_y :: real
  p_z :: real

record MouseEvent =
  clientX :: real
  clientY :: real

text \<open>The state hooks of the component, with their initial values.\<close>

record state =
  rotation :: xy
  zoom :: real
  isDragging :: bool
  dragStart :: xy
  satellites :: "Satellite list"
  loading :: bool
  filter_s :: string
  searchTerm :: string
  error :: "string option"

definition initial :: state where
  "initial =
     \<lparr>rotation = \<lparr>xy_x = 0, xy_y = 0\<rparr>, zoom = 1, isDragging = False,
      dragStart = \<lparr>xy_x = 0, xy_y = 0\<rparr>, satellites = [], loading = True,
      filter_s = ''all'', searchTerm = '''', error = None\<rparr>"

section \<open>Data source\<close>

text \<open>
  \<open>fetchSatellites\<close> builds 200 satellites from calls of \<open>Math.random()\<close>, four per
  satellite in the order of the object literal (longitude, latitude, altitude,
  category). The argument \<open>rnd\<close> gives the results of these calls in order; each is a
  number \<open>r\<close> with \<open>0 \<le> r < 1\<close>. Nothing in the \<open>try\<close> block throws, so the \<open>catch\<close>
  branch is not taken.
\<close>

definition categories :: "category list" where
  "categories = [Communication, Navigation, Weather, Telescope, Debris]"

definition pick_category :: "real \<Rightarrow> category" where
  \<comment> \<open>the array element at \<open>Math.floor(r * 5)\<close>, an index from 0 to 4 for \<open>0 \<le> r < 1\<close>
      (beyond that range, which the source never sees, the index is cut to the array)\<close>
  "pick_category r = categories ! min 4 (nat \<lfloor>r * 5\<rfloor>)"

definition sampleData :: "(nat \<Rightarrow> real) \<Rightarrow> Satellite list" where
  "sampleData rnd =
     map (\<lambda>i. \<lparr>name = ''SAT-'' @ show_nat (i + 1),
               norad_id = i + 1,
               lon = toFixed2 (rnd (4 * i) * 360 - 180),
               lat = toFixed2 (rnd (4 * i + 1) * 180 - 90),
               alt = toFixed2 (300 + rnd (4 * i + 2) * 35700),
               category = pick_category (rnd (4 * i + 3))\<rparr>)
         [0..<200]"

definition fetchSatellites :: "(nat \<Rightarrow> real) \<Rightarrow> state \<Rightarrow> state" where
  "fetchSatellites rnd s = s\<lparr>satellites := sampleData rnd, loading := False\<rparr>"

section \<open>Interaction handlers\<close>

definition handleMouseDown :: "MouseEvent \<Rightarrow> state \<Rightarrow> state" where
  "handleMouseDown e s =
     s\<lparr>isDragging := True, dragStart := \<lparr>xy_x = clientX e, xy_y = clientY e\<rparr>\<rparr>"

text \<open>
  \<open>handleMouseMove\<close> reads \<open>isDragging\<close> and \<open>dragStart\<close> from the closure of the render
  it was created in, the state \<open>c\<close>; its updates go to the current state \<open>s\<close>, and
  \<open>setRotation\<close> is given an updater, which reads the rotation of \<open>s\<close>. The two states are
  the same when the component has been rendered again since the last event.
\<close>

definition handleMouseMove :: "state \<Rightarrow> MouseEvent \<Rightarrow> state \<Rightarrow> state" where
  "handleMouseMove c e s =
     (if \<not> isDragging c then s
      else
        let dx = clientX e - xy_x (dragStart c);
            dy = clientY e - xy_y (dragStart c)
        in s\<lparr>rotation :=
               \<lparr>xy_x = js_rem (xy_x (rotation s) + dy * 0.3) 360,
                xy_y = js_rem (xy_y (rotation s) + dx * 0.3) 360\<rparr>,
             dragStart := \<lparr>xy_x = clientX e, xy_y = clientY e\<rparr>\<rparr>)"

definition handleMouseUp :: "state \<Rightarrow> state" where
  "handleMouseUp s = s\<lparr>isDragging := False\<rparr>"

definition handleZoom :: "real \<Rightarrow> state \<Rightarrow> state" where
  "handleZoom direction s = s\<lparr>zoom := max 0.5 (min 2.5 (zoom s + direction * 0.1))\<rparr>"

text \<open>
  The events the markup wires to these handlers: the four mouse events of the globe
  area (\<open>onMouseLeave\<close> is bound to \<open>handleMouseUp\<close>), the two zoom buttons (which
  call \<open>handleZoom(1)\<close> and \<open>handleZoom(-1)\<close>), the two inputs of the header, and
  the runs of \<open>fetchSatellites\<close> (once on mount, then from the timer started by
  \<open>setInterval(fetchSatellites, 30000)\<close>), each carrying the random numbers drawn during
  that run. In \<open>handle\<close> the component is rendered again between two events, so that a
  handler reads the state the previous event left.
\<close>

datatype event =
    MouseDown MouseEvent
  | MouseMove MouseEvent
  | MouseUp
  | MouseLeave
  | ZoomInClick
  | ZoomOutClick
  | FilterChange string
  | SearchChange string
  | Tick "nat \<Rightarrow> real"

fun handle :: "state \<Rightarrow> event \<Rightarrow> state" where
  "handle s (MouseDown e) = handleMouseDown e s"
| "handle s (MouseMove e) = handleMouseMove s e s"
| "handle s MouseUp = handleMouseUp s"
| "handle s MouseLeave = handleMouseUp s"
| "handle s ZoomInClick = handleZoom 1 s"
| "handle s ZoomOutClick = handleZoom (- 1) s"
| "handle s (FilterChange v) = s\<lparr>filter_s := v\<rparr>"
| "handle s (SearchChange v) = s\<lparr>searchTerm := v\<rparr>"
| "handle s (Tick rnd) = fetchSatellites rnd s"

definition run :: "event list \<Rightarrow> state" where
  "run evs = foldl handle initial evs"

section \<open>Filter\<close>




section \<open>Projection\<close>

definition calculateMatrix :: "real \<Rightarrow> real \<Rightarrow> real list" where
  "calculateMatrix x y =
     (let cosX = cos (x * pi / 180);
          sinX = sin (x * pi / 180);
          cosY = cos (y * pi / 180);
          sinY = sin (y * pi / 180)
      in [cosY, 0, sinY,
          sinX * sinY, cosX, - sinX * cosY,
          - cosX * sinY, sinX, cosX * cosY])"

definition project3D :: "xyz \<Rightarrow> real list \<Rightarrow> xyz option" where
  \<comment> \<open>\<open>None\<close>: the result has no finite coordinates. An array shorter than 9 makes
      \<open>matrix[8]\<close> undefined, hence \<open>z\<close>, \<open>scale\<close> and all three results \<open>NaN\<close>; at
      \<open>z = -1000\<close> the scale is infinite.\<close>
  "project3D point matrix =
     (if length matrix < 9 then None
      else
        let x = p_x point * matrix ! 0 + p_y point * matrix ! 1 + p_z point * matrix ! 2;
            y = p_x point * matrix ! 3 + p_y point * matrix ! 4 + p_z point * matrix ! 5;
            z = p_x point * matrix ! 6 + p_y point * matrix ! 7 + p_z point * matrix ! 8
        in if 1000 + z = 0 then None
           else
             let scale = 1000 / (1000 + z)
             in Some \<lparr>p_x = x * scale, p_y = y * scale, p_z = z\<rparr>)"

definition toCartesian :: "string \<Rightarrow> string \<Rightarrow> real \<Rightarrow> xyz option" where
  \<comment> \<open>\<open>None\<close>: a coordinate is \<open>NaN\<close>, because \<open>parseFloat\<close> gave \<open>NaN\<close>\<close>
  "toCartesian lon_s lat_s radius =
     (case parseFloat lon_s of
        None \<Rightarrow> None
      | Some lon_v \<Rightarrow>
          (case parseFloat lat_s of
             None \<Rightarrow> None
           | Some lat_v \<Rightarrow>
               let lonRad = (lon_v - 90) * pi / 180;
                   latRad = lat_v * pi / 180
               in Some \<lparr>p_x = radius * cos latRad * cos lonRad,
                        p_y = radius * cos latRad * sin lonRad,
                        p_z = radius * sin latRad\<rparr>))"

definition isVisible :: "real \<Rightarrow> bool" where
  "isVisible z = (z > - 100)"

text \<open>
  What the callback of \<open>filteredSatellites.map\<close> draws for one satellite: a circle and,
  above opacity 0.7, a label with the name; \<open>None\<close> is the result \<open>null\<close>. Where a step
  before the visibility test has no finite result, the depth of the source is \<open>NaN\<close> or
  \<open>-1000\<close>, \<open>isVisible\<close> is false and the callback returns \<open>null\<close>.
\<close>

record dot =
  key :: string
  cx :: real
  cy :: real
  fill :: string
  opacity :: real
  label :: "string option"

definition projected :: "real list \<Rightarrow> Satellite \<Rightarrow> xyz option" where
  \<comment> \<open>the first two statements of the callback: \<open>cart\<close>, then \<open>proj\<close>\<close>
  "projected matrix sat =
     (case parseFloat (alt sat) of
        None \<Rightarrow> None
      | Some alt_v \<Rightarrow>
          (case toCartesian (lon sat) (lat sat) (100 + alt_v / 100) of
             None \<Rightarrow> None
           | Some cart \<Rightarrow> project3D cart matrix))"

definition renderSatellite :: "real list \<Rightarrow> Satellite \<Rightarrow> dot option" where
  "renderSatellite matrix sat =
     (case projected matrix sat of
        None \<Rightarrow> None
      | Some proj \<Rightarrow>
          if isVisible (p_z proj) then
            let opacity = (p_z proj + 100) / 200
            in Some \<lparr>key = name sat, cx = p_x proj, cy = p_y proj,
                     fill = (if category sat = Debris then ''#ff4444'' else ''#44ff44''),
                     opacity = opacity,
                     label = (if opacity > 0.7 then Some (name sat) else None)\<rparr>
          else None)"

section \<open>Reference notions\<close>

text \<open>
  The notions the properties below compare the code with: 3 by 3 matrices as row-major
  lists, the rotations about the first and the second coordinate axis, and a substring
  up to the case of letters.
\<close>

definition mat_mul :: "real list \<Rightarrow> real list \<Rightarrow> real list" where
  "mat_mul a b =
     concat (map (\<lambda>i. map (\<lambda>j. sum_list (map (\<lambda>k. a ! (3 * i + k) * b ! (3 * k + j)) [0, 1, 2]))
                    [0, 1, 2]) [0, 1, 2])"

definition mat_transpose :: "real list \<Rightarrow> real list" where
  "mat_transpose a = concat (map (\<lambda>i. map (\<lambda>j. a ! (3 * j + i)) [0, 1, 2]) [0, 1, 2])"

definition mat_identity :: "real list" where
  "mat_identity = [1, 0, 0, 0, 1, 0, 0, 0, 1]"

definition mat_det :: "real list \<Rightarrow> real" where
  "mat_det a =
     a ! 0 * (a ! 4 * a ! 8 - a ! 5 * a ! 7)
     - a ! 1 * (a ! 3 * a ! 8 - a ! 5 * a ! 6)
     + a ! 2 * (a ! 3 * a ! 7 - a ! 4 * a ! 6)"

definition mat_vec :: "real list \<Rightarrow> xyz \<Rightarrow> xyz" where
  "mat_vec a p =
     \<lparr>p_x = a ! 0 * p_x p + a ! 1 * p_y p + a ! 2 * p_z p,
      p_y = a ! 3 * p_x p + a ! 4 * p_y p + a ! 5 * p_z p,
      p_z = a ! 6 * p_x p + a ! 7 * p_y p + a ! 8 * p_z p\<rparr>"

definition rotation_about_x :: "real \<Rightarrow> real list" where
  "rotation_about_x t = [1, 0, 0, 0, cos t, - sin t, 0, sin t, cos t]"

definition rotation_about_y :: "real \<Rightarrow> real list" where
  "rotation_about_y t = [cos t, 0, sin t, 0, 1, 0, - sin t, 0, cos t]"





section \<open>Invariants and sample inputs\<close>

definition zoom_ok :: "state \<Rightarrow> bool" where
  "zoom_ok s = (0.5 \<le> zoom s \<and> zoom s \<le> 2.5)"

definition rotation_ok :: "state \<Rightarrow> bool" where
  "rotation_ok s =
     (- 360 < xy_x (rotation s) \<and> xy_x (rotation s) < 360 \<and>
      - 360 < xy_y (rotation s) \<and> xy_y (rotation s) < 360)"

text \<open>The state after a press of the mouse button at (100, 50).\<close>

definition drag_state :: state where
  "drag_state = handleMouseDown \<lparr>clientX = 100, clientY = 50\<rparr> initial"

text \<open>
  A satellite over the north pole at the lowest altitude, and random numbers for which
  the data source produces it as its first satellite.
\<close>

definition polar_sat :: Satellite where
  "polar_sat =
     \<lparr>name = ''SAT-1'', norad_id = 1, lon = ''0.00'', lat = ''90.00'', alt = ''300.00'',
      category = Debris\<rparr>"

definition polar_draws :: "nat \<Rightarrow> real" where
  "polar_draws k = (if k = 0 then 0.5 else if k = 1 then 0.99999 else if k = 2 then 0 else 0.9)"



section \<open>Zoom\<close>

lemma zoom_ok_initial: "zoom_ok initial"
  by (simp add: zoom_ok_def initial_def)

lemma zoom_ok_handleZoom: "zoom_ok (handleZoom d s)"
  by (simp add: zoom_ok_def handleZoom_def max_def min_def)

lemma zoom_ok_handle:
  assumes "zoom_ok s"
  shows "zoom_ok (handle s ev)"
proof (cases ev)
  case (MouseMove e)
  with assms show ?thesis
    by (simp add: zoom_ok_def handleMouseMove_def Let_def)
qed (use assms in \<open>simp_all add: zoom_ok_handleZoom,
      simp_all add: zoom_ok_def handleMouseDown_def handleMouseUp_def fetchSatellites_def\<close>)

lemma zoom_ok_foldl:
  assumes "zoom_ok s"
  shows "zoom_ok (foldl handle s evs)"
  using assms by (induction evs arbitrary: s) (simp_all add: zoom_ok_handle)

text \<open>
  C3. The initial zoom is 1, a click on the zoom-in or zoom-out button adds or subtracts
  0.1 before clamping, and after every finite sequence of such clicks the zoom lies in
  the closed interval from 0.5 to 2.5. The statement covers every sequence of events of
  the component, of which the sequences of clicks are a special case.
\<close>

theorem zoom_stays_in_range:
  "zoom initial = 1
   \<and> zoom (handle s ZoomInClick) = max 0.5 (min 2.5 (zoom s + 0.1))
   \<and> zoom (handle s ZoomOutClick) = max 0.5 (min 2.5 (zoom s - 0.1))
   \<and> 0.5 \<le> zoom (run evs) \<and> zoom (run evs) \<le> 2.5"
proof -
  have "zoom_ok (run evs)"
    unfolding run_def by (rule zoom_ok_foldl [OF zoom_ok_initial])
  then show ?thesis
    by (simp add: zoom_ok_def initial_def handleZoom_def)
qed

section \<open>Rotation by dragging\<close>

lemma js_rem_bounds:
  assumes "0 < b"
  shows "- b < js_rem a b \<and> js_rem a b < b"
proof (cases "0 \<le> a")
  case True
  then have q: "0 \<le> a / b" using assms by simp
  have "a / b < of_int \<lfloor>a / b\<rfloor> + 1" by linarith
  then have 1: "a < (of_int \<lfloor>a / b\<rfloor> + 1) * b"
    using assms by (simp only: pos_divide_less_eq)
  have 2: "of_int \<lfloor>a / b\<rfloor> * b \<le> a"
    using assms by (simp add: pos_le_divide_eq [symmetric])
  from 1 2 q assms show ?thesis
    by (simp add: js_rem_def js_trunc_def algebra_simps)
next
  case False
  then have q: "\<not> 0 \<le> a / b" using assms by (simp add: field_simps)
  have "of_int \<lceil>a / b\<rceil> - 1 < a / b" by linarith
  then have 1: "(of_int \<lceil>a / b\<rceil> - 1) * b < a"
    using assms by (simp only: pos_less_divide_eq)
  have 2: "a \<le> of_int \<lceil>a / b\<rceil> * b"
    using assms by (simp add: pos_divide_le_eq [symmetric])
  from 1 2 q assms show ?thesis
    by (simp add: js_rem_def js_trunc_def algebra_simps)
qed

lemma js_rem_congruent: "\<exists>k::int. js_rem a b = a - b * of_int k"
  unfolding js_rem_def by blast

lemma js_rem_small: "0 \<le> a \<Longrightarrow> a < b \<Longrightarrow> js_rem a b = a"
  by (simp add: js_rem_def js_trunc_def floor_eq_iff)

lemma js_rem_small_neg: "a < 0 \<Longrightarrow> - b < a \<Longrightarrow> js_rem a b = a"
proof -
  assume a: "a < 0" "- b < a"
  then have b: "0 < b" by linarith
  then have "\<lceil>a / b\<rceil> = 0" using a by (simp add: ceiling_eq_iff field_simps)
  moreover have "\<not> 0 \<le> a / b" using a b by (simp add: field_simps)
  ultimately show ?thesis by (simp add: js_rem_def js_trunc_def)
qed

lemma js_rem_sign:
  assumes "0 < b"
  shows "0 \<le> js_rem a b * a"
proof (cases "0 \<le> a")
  case True
  then have q: "0 \<le> a / b" using assms by simp
  have "of_int \<lfloor>a / b\<rfloor> * b \<le> a"
    using assms by (simp add: pos_le_divide_eq [symmetric])
  with q have "0 \<le> js_rem a b"
    by (simp add: js_rem_def js_trunc_def algebra_simps)
  with True show ?thesis by simp
next
  case False
  then have q: "\<not> 0 \<le> a / b" using assms by (simp add: field_simps)
  have "a \<le> of_int \<lceil>a / b\<rceil> * b"
    using assms by (simp add: pos_divide_le_eq [symmetric])
  with q have "js_rem a b \<le> 0"
    by (simp add: js_rem_def js_trunc_def algebra_simps)
  with False show ?thesis by (simp add: mult_nonpos_nonpos)
qed

text \<open>
  The value of \<open>a % 360\<close> is fixed by three properties: it differs from \<open>a\<close> by a whole
  multiple of 360, it lies strictly between -360 and 360, and it is zero or has the
  sign of \<open>a\<close>.
\<close>

lemma reduced_unique:
  fixes a :: real and k k' :: int
  assumes "\<bar>a - 360 * of_int k\<bar> < 360" "0 \<le> (a - 360 * of_int k) * a"
    and "\<bar>a - 360 * of_int k'\<bar> < 360" "0 \<le> (a - 360 * of_int k') * a"
  shows "a - 360 * of_int k = a - 360 * of_int k'"
proof -
  have same: "k = k'" if "\<bar>(a - 360 * real_of_int k) - (a - 360 * real_of_int k')\<bar> < 360"
  proof -
    from that have "real_of_int (k' - k) < 1" "- 1 < real_of_int (k' - k)"
      by (simp_all add: abs_less_iff)
    then have "k' - k < 1" "- 1 < k' - k"
      by linarith+
    then show ?thesis by simp
  qed
  consider "0 < a" | "a < 0" | "a = 0" by linarith
  then show ?thesis
  proof cases
    case 1
    with assms(2,4) have "0 \<le> a - 360 * real_of_int k" "0 \<le> a - 360 * real_of_int k'"
      by (simp_all add: zero_le_mult_iff)
    with assms(1,3) have "k = k'"
      by (intro same) (simp add: abs_less_iff)
    then show ?thesis by simp
  next
    case 2
    with assms(2,4) have "a - 360 * real_of_int k \<le> 0" "a - 360 * real_of_int k' \<le> 0"
      by (simp_all add: zero_le_mult_iff)
    with assms(1,3) have "k = k'"
      by (intro same) (simp add: abs_less_iff)
    then show ?thesis by simp
  next
    case 3
    with assms(1,3) have "\<bar>real_of_int k\<bar> < 1" "\<bar>real_of_int k'\<bar> < 1"
      by simp_all
    then have "k = 0" "k' = 0"
      by linarith+
    then show ?thesis by simp
  qed
qed

text \<open>
  C4. For every pointer-move event received while the component is dragging, with the
  pointer delta (dx, dy) taken from the recorded anchor, the new x angle is the old one
  plus 0.3 * dy and the new y angle is the old one plus 0.3 * dx, each reduced by the
  remainder operator with 360: the result differs from the unreduced sum by a whole
  multiple of 360, lies strictly between -360 and 360 and is zero or has the sign of
  the unreduced sum. The anchor becomes the current pointer position. The anchor and
  the dragging flag are the ones of the render the handler belongs to; the old
  rotation is the current one.
\<close>

theorem drag_move_updates_rotation:
  assumes "isDragging c"
  shows "handleMouseMove c e s =
           s\<lparr>rotation :=
               \<lparr>xy_x = js_rem (xy_x (rotation s) + 0.3 * (clientY e - xy_y (dragStart c))) 360,
                xy_y = js_rem (xy_y (rotation s) + 0.3 * (clientX e - xy_x (dragStart c))) 360\<rparr>,
             dragStart := \<lparr>xy_x = clientX e, xy_y = clientY e\<rparr>\<rparr>
         \<and> (\<exists>k::int. xy_x (rotation (handleMouseMove c e s)) =
                xy_x (rotation s) + 0.3 * (clientY e - xy_y (dragStart c)) - 360 * of_int k)
         \<and> \<bar>xy_x (rotation (handleMouseMove c e s))\<bar> < 360
         \<and> 0 \<le> xy_x (rotation (handleMouseMove c e s))
                 * (xy_x (rotation s) + 0.3 * (clientY e - xy_y (dragStart c)))
         \<and> (\<exists>k::int. xy_y (rotation (handleMouseMove c e s)) =
                xy_y (rotation s) + 0.3 * (clientX e - xy_x (dragStart c)) - 360 * of_int k)
         \<and> \<bar>xy_y (rotation (handleMouseMove c e s))\<bar> < 360
         \<and> 0 \<le> xy_y (rotation (handleMouseMove c e s))
                 * (xy_y (rotation s) + 0.3 * (clientX e - xy_x (dragStart c)))"
proof -
  have eq: "handleMouseMove c e s =
           s\<lparr>rotation :=
               \<lparr>xy_x = js_rem (xy_x (rotation s) + 0.3 * (clientY e - xy_y (dragStart c))) 360,
                xy_y = js_rem (xy_y (rotation s) + 0.3 * (clientX e - xy_x (dragStart c))) 360\<rparr>,
             dragStart := \<lparr>xy_x = clientX e, xy_y = clientY e\<rparr>\<rparr>"
    using assms by (simp add: handleMouseMove_def Let_def mult.commute)
  have r: "\<bar>js_rem a 360\<bar> < 360" "0 \<le> js_rem a 360 * a" for a
    using js_rem_bounds [of 360 a] js_rem_sign [of 360 a] by (simp_all add: abs_less_iff)
  show ?thesis
    unfolding eq using js_rem_congruent [where b = 360] r by simp
qed

text \<open>
  The statement at a concrete drag: pressed at (100, 50) and moved to (1400, -1250), the
  unreduced angles are (-390, 390), the rotation becomes (-30, 30) and the anchor
  (1400, -1250).
\<close>

theorem drag_move_updates_rotation_witness:
  "isDragging drag_state
   \<and> rotation (handleMouseMove drag_state \<lparr>clientX = 1400, clientY = - 1250\<rparr> drag_state)
       = \<lparr>xy_x = - 30, xy_y = 30\<rparr>
   \<and> dragStart (handleMouseMove drag_state \<lparr>clientX = 1400, clientY = - 1250\<rparr> drag_state)
       = \<lparr>xy_x = 1400, xy_y = - 1250\<rparr>"
proof -
  have d: "isDragging drag_state"
    by (simp add: drag_state_def handleMouseDown_def)
  have r: "js_rem (- 390) 360 = - 30" "js_rem 390 360 = 30"
    by (simp_all add: js_rem_def js_trunc_def)
  show ?thesis
    using d drag_move_updates_rotation [OF d, of "\<lparr>clientX = 1400, clientY = - 1250\<rparr>" drag_state] r
    by (simp add: drag_state_def handleMouseDown_def initial_def)
qed

text \<open>
  Two moves to x = 110 and x = 120 after a press at x = 100: handled by the same render
  both take their delta from the anchor 100 and the y angle becomes 3 + 6 = 9; with a
  render in between the second delta is taken from 110 and the angle becomes 6.
\<close>

lemma two_moves_before_render:
  "xy_y (rotation (handleMouseMove drag_state \<lparr>clientX = 120, clientY = 50\<rparr>
      (handleMouseMove drag_state \<lparr>clientX = 110, clientY = 50\<rparr> drag_state))) = 9"
  "xy_y (rotation (handleMouseMove (handleMouseMove drag_state \<lparr>clientX = 110, clientY = 50\<rparr> drag_state)
      \<lparr>clientX = 120, clientY = 50\<rparr>
      (handleMouseMove drag_state \<lparr>clientX = 110, clientY = 50\<rparr> drag_state))) = 6"
  by (simp_all add: handleMouseMove_def drag_state_def handleMouseDown_def initial_def Let_def
      js_rem_small)

lemma rotation_ok_handle:
  assumes "rotation_ok s"
  shows "rotation_ok (handle s ev)"
proof (cases ev)
  case (MouseMove e)
  have "- 360 < js_rem a 360 \<and> js_rem a 360 < 360" for a
    using js_rem_bounds [of 360 a] by simp
  with assms MouseMove show ?thesis
    by (simp add: rotation_ok_def handleMouseMove_def Let_def)
qed (use assms in \<open>simp_all add: rotation_ok_def handleMouseDown_def handleMouseUp_def
      handleZoom_def fetchSatellites_def\<close>)

lemma rotation_ok_foldl:
  assumes "rotation_ok s"
  shows "rotation_ok (foldl handle s evs)"
  using assms by (induction evs arbitrary: s) (simp_all add: rotation_ok_handle)

text \<open>
  C10. Starting from the rotation (0, 0), after every finite sequence of events each
  rotation component lies strictly between -360 and 360. A component can be negative,
  since the remainder operator keeps the sign of the dividend: a drag of ten pixels to
  the left from the initial state gives the y angle -3.
\<close>

theorem rotation_stays_within_a_turn:
  "rotation initial = \<lparr>xy_x = 0, xy_y = 0\<rparr>
   \<and> - 360 < xy_x (rotation (run evs)) \<and> xy_x (rotation (run evs)) < 360
   \<and> - 360 < xy_y (rotation (run evs)) \<and> xy_y (rotation (run evs)) < 360
   \<and> xy_y (rotation (run [MouseDown \<lparr>clientX = 0, clientY = 0\<rparr>,
                          MouseMove \<lparr>clientX = - 10, clientY = 0\<rparr>])) = - 3"
proof -
  have "rotation_ok initial"
    by (simp add: rotation_ok_def initial_def)
  then have "rotation_ok (run evs)"
    unfolding run_def by (rule rotation_ok_foldl)
  moreover have "js_rem (- 3) 360 = - 3"
    by (simp add: js_rem_small_neg)
  ultimately show ?thesis
    by (simp add: rotation_ok_def run_def initial_def handleMouseDown_def
        handleMouseMove_def Let_def)
qed

section \<open>Matrix and projector\<close>

text \<open>
  C6. For all angles x and y in degrees, the matrix builder returns the row-major 3 by 3
  matrix that is the product of the rotation about the first coordinate axis by x and
  the rotation about the second coordinate axis by y, the angles converted to radians by
  the factor pi / 180. The result is a rotation matrix: its product with its transpose
  is the identity, on both sides, and its determinant is 1.
\<close>

theorem calculateMatrix_is_rotation:
  "calculateMatrix x y = mat_mul (rotation_about_x (x * pi / 180)) (rotation_about_y (y * pi / 180))
   \<and> length (calculateMatrix x y) = 9
   \<and> mat_mul (calculateMatrix x y) (mat_transpose (calculateMatrix x y)) = mat_identity
   \<and> mat_mul (mat_transpose (calculateMatrix x y)) (calculateMatrix x y) = mat_identity
   \<and> mat_det (calculateMatrix x y) = 1"
proof -
  define cx sx cy sy where "cx = cos (x * pi / 180)" and "sx = sin (x * pi / 180)"
    and "cy = cos (y * pi / 180)" and "sy = sin (y * pi / 180)"
  have m: "calculateMatrix x y = [cy, 0, sy, sx * sy, cx, - sx * cy, - cx * sy, sx, cx * cy]"
    by (simp add: calculateMatrix_def cx_def sx_def cy_def sy_def Let_def)
  have u: "sx * sx + cx * cx = 1" "sy * sy + cy * cy = 1"
    unfolding cx_def sx_def cy_def sy_def
    using sin_cos_squared_add [of "x * pi / 180"] sin_cos_squared_add [of "y * pi / 180"]
    by (simp_all add: power2_eq_square)
  have 1: "calculateMatrix x y =
      mat_mul (rotation_about_x (x * pi / 180)) (rotation_about_y (y * pi / 180))"
    by (simp add: calculateMatrix_def mat_mul_def rotation_about_x_def rotation_about_y_def Let_def)
  have 2: "length (calculateMatrix x y) = 9"
    by (simp add: m)
  have 3: "mat_mul (calculateMatrix x y) (mat_transpose (calculateMatrix x y)) = mat_identity"
    unfolding m using u
    apply (simp add: mat_mul_def mat_transpose_def mat_identity_def)
    apply (intro conjI; algebra)
    done
  have 4: "mat_mul (mat_transpose (calculateMatrix x y)) (calculateMatrix x y) = mat_identity"
    unfolding m using u
    apply (simp add: mat_mul_def mat_transpose_def mat_identity_def)
    apply (intro conjI; algebra)
    done
  have 5: "mat_det (calculateMatrix x y) = 1"
    unfolding m using u
    apply (simp add: mat_det_def)
    apply algebra
    done
  from 1 2 3 4 5 show ?thesis by simp
qed

text \<open>
  C7. For every point p and every matrix m of nine entries, the projector applies m to p,
  giving (x', y', z'), and returns the point (x' * 1000 / (1000 + z'),
  y' * 1000 / (1000 + z')) together with the depth z' itself, unscaled. At z' = -1000
  the quotient is not a finite number and the model has the result \<open>None\<close>.
\<close>

theorem project3D_perspective:
  assumes "length m = 9"
  shows "project3D p m =
           (if 1000 + p_z (mat_vec m p) = 0 then None
            else Some \<lparr>p_x = p_x (mat_vec m p) * 1000 / (1000 + p_z (mat_vec m p)),
                       p_y = p_y (mat_vec m p) * 1000 / (1000 + p_z (mat_vec m p)),
                       p_z = p_z (mat_vec m p)\<rparr>)"
  using assms by (simp add: project3D_def mat_vec_def Let_def mult.commute)

text \<open>The statement at the identity matrix and the point (100, 50, 250).\<close>

theorem project3D_perspective_witness:
  "length (calculateMatrix 0 0) = 9
   \<and> project3D \<lparr>p_x = 100, p_y = 50, p_z = 250\<rparr> (calculateMatrix 0 0)
       = Some \<lparr>p_x = 80, p_y = 40, p_z = 250\<rparr>"
proof -
  have l: "length (calculateMatrix 0 0) = 9"
    by (simp add: calculateMatrix_def)
  show ?thesis
    using l project3D_perspective [OF l, of "\<lparr>p_x = 100, p_y = 50, p_z = 250\<rparr>"]
    by (simp add: mat_vec_def calculateMatrix_def)
qed

section \<open>Conversion, visibility and opacity\<close>

lemmas parse_defs = parseFloat_def parse_sign_def is_space_def digit_of_def digits_val_def
  parse_exponent_def

lemma parse_examples:
  "parseFloat ''90'' = Some 90" "parseFloat ''0'' = Some 0"
  "parseFloat ''0.00'' = Some 0" "parseFloat ''90.00'' = Some 90"
  "parseFloat ''300.00'' = Some 300"
  by (simp_all add: parse_defs)

lemma calculateMatrix_zero: "calculateMatrix 0 0 = [1, 0, 0, 0, 1, 0, 0, 0, 1]"
  by (simp add: calculateMatrix_def)

text \<open>
  The input longitude 90, latitude 0, radius 100 at zero rotation is not projected to the
  centre (0, 0) of the disc.
\<close>

theorem lon90_centre_counterexample:
  "map_option (\<lambda>q. (p_x q, p_y q))
     (Option.bind (toCartesian ''90'' ''0'' 100) (\<lambda>cart. project3D cart (calculateMatrix 0 0)))
     \<noteq> Some (0, 0)"
  by (simp add: toCartesian_def parse_examples calculateMatrix_zero project3D_def)

text \<open>
  C2, as the code has it. For the input longitude 90, latitude 0, radius 100, the
  converter (which subtracts 90 degrees from the longitude) followed by the projector at
  zero rotation yields the point (100, 0) at depth 0: a point on the rim of the disc of
  radius 100.
\<close>

theorem lon90_projects_to_rim:
  "Option.bind (toCartesian ''90'' ''0'' 100) (\<lambda>cart. project3D cart (calculateMatrix 0 0))
     = Some \<lparr>p_x = 100, p_y = 0, p_z = 0\<rparr>"
  by (simp add: toCartesian_def parse_examples calculateMatrix_zero project3D_def)

lemma projected_polar_sat:
  "projected (calculateMatrix 0 0) polar_sat = Some \<lparr>p_x = 0, p_y = 0, p_z = 103\<rparr>"
  by (simp add: projected_def polar_sat_def toCartesian_def parse_examples
      calculateMatrix_zero project3D_def)

lemma sampleData_nth:
  assumes "i < 200"
  shows "sampleData rnd ! i =
     \<lparr>name = ''SAT-'' @ show_nat (i + 1), norad_id = i + 1,
      lon = toFixed2 (rnd (4 * i) * 360 - 180),
      lat = toFixed2 (rnd (4 * i + 1) * 180 - 90),
      alt = toFixed2 (300 + rnd (4 * i + 2) * 35700),
      category = pick_category (rnd (4 * i + 3))\<rparr>"
  using assms by (simp add: sampleData_def)

lemma polar_sat_generated: "sampleData polar_draws ! 0 = polar_sat"
  by (simp add: sampleData_nth polar_sat_def polar_draws_def toFixed2_def show_nat.simps
      digit_char_def pick_category_def categories_def)

text \<open>
  The opacity is not kept below 1: the satellite over the north pole, which the data
  source can produce, is drawn at zero rotation with opacity 203 / 200.
\<close>

theorem opacity_above_one_counterexample:
  "sampleData polar_draws ! 0 = polar_sat
   \<and> map_option opacity (renderSatellite (calculateMatrix 0 0) polar_sat) = Some (203 / 200)
   \<and> \<not> (203 / 200 \<le> (1::real))"
  by (simp add: renderSatellite_def projected_polar_sat isVisible_def polar_sat_generated)

text \<open>
  C1, as the code has it. For every satellite whose projection has a finite depth, the
  point is rendered if and only if the depth is strictly greater than -100, and when
  rendered its opacity is (depth + 100) / 200, which is strictly positive; it is at most
  1 exactly when the depth is at most 100 (no upper clamp is applied).
\<close>

theorem rendered_iff_visible:
  assumes "projected m sat = Some proj"
  shows "(renderSatellite m sat \<noteq> None) = (- 100 < p_z proj)
         \<and> (\<forall>d. renderSatellite m sat = Some d \<longrightarrow>
               opacity d = (p_z proj + 100) / 200 \<and> 0 < opacity d
               \<and> (opacity d \<le> 1) = (p_z proj \<le> 100))"
  using assms by (auto simp add: renderSatellite_def isVisible_def Let_def)

text \<open>The statement at the satellite over the north pole, at zero rotation.\<close>

theorem rendered_iff_visible_witness:
  "projected (calculateMatrix 0 0) polar_sat = Some \<lparr>p_x = 0, p_y = 0, p_z = 103\<rparr>
   \<and> renderSatellite (calculateMatrix 0 0) polar_sat =
       Some \<lparr>key = ''SAT-1'', cx = 0, cy = 0, fill = ''#ff4444'', opacity = 203 / 200,
             label = Some ''SAT-1''\<rparr>"
  using rendered_iff_visible [OF projected_polar_sat] projected_polar_sat
  by (simp add: renderSatellite_def isVisible_def polar_sat_def)

section \<open>Filter and refresh\<close>
















text \<open>
  C8. A timer tick runs the data source, whose only effect is to replace the satellite
  collection by a newly generated collection of 200 satellites, which does not depend
  on the collection it replaces, and to clear the loading flag; rotation, zoom, filter
  and search term (and the drag state and the error) are unchanged.
\<close>

theorem refresh_replaces_collection:
  "handle s (Tick rnd) = s\<lparr>satellites := sampleData rnd, loading := False\<rparr>
   \<and> length (satellites (handle s (Tick rnd))) = 200
   \<and> satellites (handle s (Tick rnd)) = satellites (handle s' (Tick rnd))
   \<and> rotation (handle s (Tick rnd)) = rotation s
   \<and> zoom (handle s (Tick rnd)) = zoom s
   \<and> filter_s (handle s (Tick rnd)) = filter_s s
   \<and> searchTerm (handle s (Tick rnd)) = searchTerm s
   \<and> isDragging (handle s (Tick rnd)) = isDragging s
   \<and> dragStart (handle s (Tick rnd)) = dragStart s
   \<and> error (handle s (Tick rnd)) = error s
   \<and> \<not> loading (handle s (Tick rnd))"
  by (simp add: fetchSatellites_def sampleData_def)

section \<open>Generated satellites\<close>

subsection \<open>Reading back a number printed with two decimals\<close>

lemma digit_of_nth: "d < 10 \<Longrightarrow> digit_of (''0123456789'' ! d) = Some d"
proof -
  assume "d < 10"
  then consider "d = 0" | "d = 1" | "d = 2" | "d = 3" | "d = 4" | "d = 5" | "d = 6"
    | "d = 7" | "d = 8" | "d = 9"
    by atomize_elim arith
  then show ?thesis
    by cases (simp_all add: digit_of_def)
qed

lemma digit_of_digit_char: "digit_of (digit_char n) = Some (n mod 10)"
  by (simp add: digit_char_def digit_of_nth)

lemma digit_not_sign:
  assumes "digit_of c = Some d"
  shows "\<not> is_space c" "c \<noteq> CHR ''-''" "c \<noteq> CHR ''+''" "c \<noteq> CHR ''.''"
  using assms by (auto simp: digit_of_def is_space_def split: if_splits)

lemma span_digits_append:
  assumes "\<forall>c\<in>set s. digit_of c \<noteq> None"
  shows "span_digits (s @ t) = (map (\<lambda>c. the (digit_of c)) s @ fst (span_digits t), snd (span_digits t))"
  using assms by (induction s) (auto split: prod.splits)

lemma show_nat_digits: "\<forall>c\<in>set (show_nat n). digit_of c \<noteq> None"
proof (induction n rule: show_nat.induct)
  case (1 n)
  then show ?case
    by (subst show_nat.simps) (auto simp: digit_of_digit_char)
qed

lemma digits_val_snoc: "digits_val (ds @ [d]) = 10 * digits_val ds + d"
  by (simp add: digits_val_def)

lemma show_nat_val: "digits_val (map (\<lambda>c. the (digit_of c)) (show_nat n)) = n"
proof (induction n rule: show_nat.induct)
  case (1 n)
  show ?case
  proof (cases "n < 10")
    case True
    then show ?thesis
      by (subst show_nat.simps) (simp add: digit_of_digit_char digits_val_def)
  next
    case False
    with 1 have "digits_val (map (\<lambda>c. the (digit_of c)) (show_nat (n div 10))) = n div 10"
      by simp
    with False show ?thesis
      by (subst show_nat.simps) (simp add: digit_of_digit_char digits_val_snoc)
  qed
qed

lemma show_nat_Cons: "\<exists>c cs d. show_nat n = c # cs \<and> digit_of c = Some d"
proof -
  have "show_nat n \<noteq> []"
    by (subst show_nat.simps) simp
  then obtain c cs where e: "show_nat n = c # cs"
    by (cases "show_nat n") auto
  with show_nat_digits [of n] have "digit_of c \<noteq> None" by simp
  with e show ?thesis by auto
qed


lemma digit_char_mod: "digit_char (n mod 10) = digit_char n"
  by (simp add: digit_char_def)

lemma parseFloat_body:
  assumes s: "parse_sign (dropWhile is_space s) =
                (sg, show_nat k @ CHR ''.'' # [digit_char a, digit_char b])"
    and "a < 10" "b < 10"
  shows "parseFloat s = Some (sg * (real k + real (10 * a + b) / 100))"
proof -
  obtain c cs d where e: "show_nat k = c # cs" "digit_of c = Some d"
    using show_nat_Cons by blast
  have nd: "digit_of CHR ''.'' = None"
    by (simp add: digit_of_def)
  then have dot: "span_digits (CHR ''.'' # rest) = ([], CHR ''.'' # rest)" for rest
    by simp
  have ip: "span_digits (show_nat k @ CHR ''.'' # rest) =
      (map (\<lambda>c. the (digit_of c)) (show_nat k), CHR ''.'' # rest)" for rest
    by (simp add: span_digits_append [OF show_nat_digits] nd)
  have fp: "span_digits [digit_char a, digit_char b] = ([a, b], [])"
    using assms(2,3) by (simp add: digit_of_digit_char)
  have ne: "map (\<lambda>c. the (digit_of c)) (show_nat k) \<noteq> []"
    by (simp add: e)
  have v: "digits_val [a, b] = 10 * a + b"
    by (simp add: digits_val_def)
  show ?thesis
    unfolding parseFloat_def s
    by (simp add: ip fp ne v show_nat_val parse_exponent_def del: span_digits.simps)
qed

lemma parse_sign_minus: "parse_sign (dropWhile is_space (CHR ''-'' # r)) = (- 1, r)"
  by (simp add: parse_sign_def is_space_def)

lemma parse_sign_digits:
  "parse_sign (dropWhile is_space (show_nat k @ r)) = (1, show_nat k @ r)"
proof -
  obtain c cs d where e: "show_nat k = c # cs" "digit_of c = Some d"
    using show_nat_Cons by blast
  then show ?thesis
    using digit_not_sign [OF e(2)] by (simp add: parse_sign_def)
qed

lemma split_hundreds:
  "real (n div 100) + real (10 * (n mod 100 div 10) + n mod 10) / 100 = real n / 100"
proof -
  have "n mod 10 = n mod 100 mod 10"
    by (simp add: mod_mod_cancel)
  then have 1: "10 * (n mod 100 div 10) + n mod 10 = n mod 100"
    by (simp only: mult_div_mod_eq)
  have "real n = real (100 * (n div 100) + n mod 100)"
    by (simp only: mult_div_mod_eq)
  then have 2: "real n = 100 * real (n div 100) + real (n mod 100)"
    by (simp only: of_nat_add of_nat_mult of_nat_numeral)
  show ?thesis
    unfolding 1 using 2 by linarith
qed

lemma parseFloat_toFixed2:
  "parseFloat (toFixed2 v) =
     Some ((if v < 0 then - 1 else 1) * (real (nat \<lfloor>\<bar>v\<bar> * 100 + 1 / 2\<rfloor>) / 100))"
proof -
  define n where "n = nat \<lfloor>\<bar>v\<bar> * 100 + 1 / 2\<rfloor>"
  have t: "toFixed2 v = (if v < 0 then ''-'' else '''') @ show_nat (n div 100)
      @ CHR ''.'' # [digit_char (n mod 100 div 10), digit_char (n mod 10)]"
    by (simp add: toFixed2_def n_def [symmetric] Let_def digit_char_mod)
  have b: "n mod 100 div 10 < 10" "n mod 10 < 10"
    by simp_all
  show ?thesis
  proof (cases "v < 0")
    case True
    then have "parse_sign (dropWhile is_space (toFixed2 v)) =
        (- 1, show_nat (n div 100) @ CHR ''.'' # [digit_char (n mod 100 div 10), digit_char (n mod 10)])"
      by (simp only: t if_True append_Cons append_Nil parse_sign_minus)
    from parseFloat_body [OF this b]
    have "parseFloat (toFixed2 v) = Some (- 1 * (real n / 100))"
      by (simp only: split_hundreds)
    with True show ?thesis
      by (simp only: n_def if_True)
  next
    case False
    then have "parse_sign (dropWhile is_space (toFixed2 v)) =
        (1, show_nat (n div 100) @ CHR ''.'' # [digit_char (n mod 100 div 10), digit_char (n mod 10)])"
      by (simp only: t if_False append_Nil parse_sign_digits)
    from parseFloat_body [OF this b]
    have "parseFloat (toFixed2 v) = Some (1 * (real n / 100))"
      by (simp only: split_hundreds)
    with False show ?thesis
      by (simp only: n_def if_False)
  qed
qed

subsection \<open>The depth of a generated satellite\<close>

lemma unit_dot:
  fixes a1 a2 a3 b1 b2 b3 :: real
  assumes "a1 * a1 + a2 * a2 + a3 * a3 = 1" "b1 * b1 + b2 * b2 + b3 * b3 = 1"
  shows "\<bar>a1 * b1 + a2 * b2 + a3 * b3\<bar> \<le> 1"
proof -
  have "0 \<le> (a1 - b1)\<^sup>2 + (a2 - b2)\<^sup>2 + (a3 - b3)\<^sup>2"
    by (intro add_nonneg_nonneg zero_le_power2)
  then have 1: "2 * (a1 * b1 + a2 * b2 + a3 * b3) \<le> 2"
    using assms by (simp add: power2_eq_square algebra_simps)
  have "0 \<le> (a1 + b1)\<^sup>2 + (a2 + b2)\<^sup>2 + (a3 + b3)\<^sup>2"
    by (intro add_nonneg_nonneg zero_le_power2)
  then have 2: "- 2 \<le> 2 * (a1 * b1 + a2 * b2 + a3 * b3)"
    using assms by (simp add: power2_eq_square algebra_simps)
  from 1 2 show ?thesis by (simp add: abs_le_iff)
qed

lemma unit_vectors:
  fixes c s c' s' :: real
  assumes "s * s + c * c = 1" "s' * s' + c' * c' = 1"
  shows "c * c' * (c * c') + c * s' * (c * s') + s * s = 1"
  using assms by algebra

lemma depth_bound:
  assumes c: "toCartesian lon_s lat_s R = Some cart" and R: "0 \<le> R"
  shows "\<bar>p_z (mat_vec (calculateMatrix x y) cart)\<bar> \<le> R"
proof -
  from c obtain lo la where cart: "cart =
      \<lparr>p_x = R * cos (la * pi / 180) * cos ((lo - 90) * pi / 180),
       p_y = R * cos (la * pi / 180) * sin ((lo - 90) * pi / 180),
       p_z = R * sin (la * pi / 180)\<rparr>"
    by (auto simp: toCartesian_def Let_def split: option.splits)
  define cl sl ck sk where "cl = cos (la * pi / 180)" and "sl = sin (la * pi / 180)"
    and "ck = cos ((lo - 90) * pi / 180)" and "sk = sin ((lo - 90) * pi / 180)"
  define cx sx cy sy where "cx = cos (x * pi / 180)" and "sx = sin (x * pi / 180)"
    and "cy = cos (y * pi / 180)" and "sy = sin (y * pi / 180)"
  have u: "sl * sl + cl * cl = 1" "sk * sk + ck * ck = 1" "sx * sx + cx * cx = 1"
    "sy * sy + cy * cy = 1"
    unfolding cl_def sl_def ck_def sk_def cx_def sx_def cy_def sy_def
    by (simp_all add: power2_eq_square [symmetric])
  have a: "cl * ck * (cl * ck) + cl * sk * (cl * sk) + sl * sl = 1"
    by (rule unit_vectors [OF u(1) u(2)])
  have "cx * cy * (cx * cy) + cx * sy * (cx * sy) + sx * sx = 1"
    by (rule unit_vectors [OF u(3) u(4)])
  then have b: "- (cx * sy) * - (cx * sy) + sx * sx + cx * cy * (cx * cy) = 1"
    by simp
  have z: "p_z (mat_vec (calculateMatrix x y) cart) =
      R * (cl * ck * - (cx * sy) + cl * sk * sx + sl * (cx * cy))"
    unfolding cart
    by (simp add: mat_vec_def calculateMatrix_def Let_def cl_def sl_def ck_def sk_def
        cx_def sx_def cy_def sy_def algebra_simps)
  have "\<bar>cl * ck * - (cx * sy) + cl * sk * sx + sl * (cx * cy)\<bar> \<le> 1"
    by (rule unit_dot [OF a b])
  then have "R * \<bar>cl * ck * - (cx * sy) + cl * sk * sx + sl * (cx * cy)\<bar> \<le> R * 1"
    using R by (rule mult_left_mono)
  then show ?thesis
    unfolding z using R by (simp add: abs_mult)
qed

lemma project3D_mat_vec:
  assumes "1000 + p_z (mat_vec (calculateMatrix x y) cart) \<noteq> 0"
  shows "\<exists>proj. project3D cart (calculateMatrix x y) = Some proj
           \<and> p_z proj = p_z (mat_vec (calculateMatrix x y) cart)"
  using assms by (simp add: project3D_def mat_vec_def calculateMatrix_def Let_def mult.commute)

lemma generated_alt:
  assumes "0 \<le> r" "r < 1"
  shows "\<exists>a. parseFloat (toFixed2 (300 + r * 35700)) = Some a \<and> 300 \<le> a \<and> a \<le> 36000"
proof -
  define v where "v = 300 + r * 35700"
  have v: "300 \<le> v" "v < 36000"
    using assms by (simp_all add: v_def)
  define n where "n = \<lfloor>\<bar>v\<bar> * 100 + 1 / 2\<rfloor>"
  have "30000 \<le> n" "n \<le> 3600000"
    unfolding n_def using v by (simp_all add: le_floor_iff floor_le_iff)
  then have "300 \<le> real (nat n) / 100" "real (nat n) / 100 \<le> 36000"
    by simp_all
  moreover have "parseFloat (toFixed2 v) = Some (real (nat n) / 100)"
    using v by (simp add: parseFloat_toFixed2 n_def)
  ultimately show ?thesis
    unfolding v_def by blast
qed

text \<open>
  C9. For every satellite produced by the data source, the altitude read back from its
  field lies between 300 and 36000, so the render radius 100 + alt / 100 is at most 460;
  at every rotation the projection exists, and its depth z satisfies 1000 + z > 0: the
  perspective divide never divides by zero and the scale 1000 / (1000 + z) is strictly
  positive.
\<close>

theorem generated_depth_keeps_divisor_positive:
  assumes rnd: "\<forall>k. 0 \<le> rnd k \<and> rnd k < 1" and sat: "sat \<in> set (sampleData rnd)"
  shows "\<exists>a proj. parseFloat (alt sat) = Some a \<and> 300 \<le> a \<and> a \<le> 36000
           \<and> 100 + a / 100 \<le> 460
           \<and> projected (calculateMatrix x y) sat = Some proj
           \<and> 0 < 1000 + p_z proj \<and> 0 < 1000 / (1000 + p_z proj)"
proof -
  from sat obtain i where alt: "alt sat = toFixed2 (300 + rnd (4 * i + 2) * 35700)"
    and lon: "lon sat = toFixed2 (rnd (4 * i) * 360 - 180)"
    and lat: "lat sat = toFixed2 (rnd (4 * i + 1) * 180 - 90)"
    by (auto simp: sampleData_def)
  from rnd have "0 \<le> rnd (4 * i + 2)" "rnd (4 * i + 2) < 1"
    by simp_all
  from generated_alt [OF this] obtain a where a: "parseFloat (alt sat) = Some a"
    "300 \<le> a" "a \<le> 36000"
    unfolding alt by blast
  define R where "R = 100 + a / 100"
  have R: "0 \<le> R" "R \<le> 460"
    using a by (simp_all add: R_def)
  obtain cart where cart: "toCartesian (lon sat) (lat sat) R = Some cart"
    by (simp add: toCartesian_def lon lat parseFloat_toFixed2 Let_def)
  have "\<bar>p_z (mat_vec (calculateMatrix x y) cart)\<bar> \<le> R"
    by (rule depth_bound [OF cart R(1)])
  with R have z: "0 < 1000 + p_z (mat_vec (calculateMatrix x y) cart)"
    by linarith
  then obtain proj where proj: "project3D cart (calculateMatrix x y) = Some proj"
    "p_z proj = p_z (mat_vec (calculateMatrix x y) cart)"
    using project3D_mat_vec [of x y cart] by auto
  have "projected (calculateMatrix x y) sat = Some proj"
    using a(1) cart proj(1) by (simp add: projected_def R_def)
  with a R z proj(2) show ?thesis
    by (auto simp: R_def)
qed

lemma polar_draws_range: "\<forall>k. 0 \<le> polar_draws k \<and> polar_draws k < 1"
  by (simp add: polar_draws_def)

lemma polar_sat_member: "polar_sat \<in> set (sampleData polar_draws)"
proof -
  have "sampleData polar_draws ! 0 \<in> set (sampleData polar_draws)"
    by (rule nth_mem) (simp add: sampleData_def)
  then show ?thesis
    by (simp only: polar_sat_generated)
qed

text \<open>The statement at the satellite over the north pole, at zero rotation.\<close>

theorem generated_depth_keeps_divisor_positive_witness:
  "(\<forall>k. 0 \<le> polar_draws k \<and> polar_draws k < 1)
   \<and> polar_sat \<in> set (sampleData polar_draws)
   \<and> parseFloat (alt polar_sat) = Some 300
   \<and> projected (calculateMatrix 0 0) polar_sat = Some \<lparr>p_x = 0, p_y = 0, p_z = 103\<rparr>
   \<and> (\<exists>a proj. parseFloat (alt polar_sat) = Some a \<and> 300 \<le> a \<and> a \<le> 36000
           \<and> 100 + a / 100 \<le> 460
           \<and> projected (calculateMatrix 0 0) polar_sat = Some proj
           \<and> 0 < 1000 + p_z proj \<and> 0 < 1000 / (1000 + p_z proj))"
  using generated_depth_keeps_divisor_positive [OF polar_draws_range polar_sat_member, of 0 0]
    polar_draws_range polar_sat_member projected_polar_sat
  by (simp add: polar_sat_def parse_examples)

subsection \<open>The names of the generated satellites\<close>

text \<open>
  The names the data source generates are ASCII text, and so are the names of every
  collection the component holds.
\<close>

lemma digit_ascii:
  assumes "digit_of c \<noteq> None"
  shows "(of_char c :: nat) < 128"
  using assms by (auto simp: digit_of_def split: if_splits)

lemma generated_names_ascii: "list_all (\<lambda>sat. ascii (name sat)) (sampleData rnd)"
proof -
  have "ascii (show_nat n)" for n
    using show_nat_digits [of n] by (auto simp: ascii_def list_all_iff digit_ascii)
  then show ?thesis
    by (simp add: sampleData_def list_all_iff ascii_def)
qed

lemma names_ascii_handle:
  assumes "list_all (\<lambda>sat. ascii (name sat)) (satellites s)"
  shows "list_all (\<lambda>sat. ascii (name sat)) (satellites (handle s ev))"
  using assms
  by (cases ev)
    (simp_all add: handleMouseDown_def handleMouseMove_def handleMouseUp_def handleZoom_def
      fetchSatellites_def generated_names_ascii Let_def)

lemma names_ascii_run: "list_all (\<lambda>sat. ascii (name sat)) (satellites (run evs))"
proof -
  have "list_all (\<lambda>sat. ascii (name sat)) (satellites (foldl handle s evs))"
    if "list_all (\<lambda>sat. ascii (name sat)) (satellites s)" for s
    using that by (induction evs arbitrary: s) (simp_all add: names_ascii_handle)
  then show ?thesis
    by (simp add: run_def initial_def)
qed

end
